theory Spec2Isabelle
  imports Main
begin

section \<open>Partition routing (src/etl\_project/src/partitioner.py)\<close>

text \<open>
  Python \<open>bytes\<close> are lists of 8-bit characters, Python integers are \<open>int\<close>, a decoded
  \<open>str\<close> is a list of Unicode code points (\<open>nat\<close>). Every exception of the source is a
  value of \<open>py_error\<close>; a function that may raise returns \<open>py_error + 'a\<close>.
\<close>

type_synonym bytes = "char list"

datatype py_error = IndexError | UnicodeDecodeError | ValueError

text \<open>\<open>xs[i]\<close> for a non-negative index: IndexError when out of range.\<close>

definition py_index :: "'a list \<Rightarrow> nat \<Rightarrow> py_error + 'a" where
  "py_index xs i = (if i < length xs then Inr (xs ! i) else Inl IndexError)"

text \<open>\<open>int.from_bytes(bs, byteorder="big", signed=False)\<close>.\<close>

definition from_bytes_big :: "bytes \<Rightarrow> nat" where
  "from_bytes_big bs = foldl (\<lambda>acc b. acc * 256 + of_char b) 0 bs"

text \<open>
  The parts of the Python runtime the two routers call into are not code of the
  repository; they are the fields of \<open>py_runtime\<close>:
  \<^item> \<open>sha256_digest k\<close> is \<open>hashlib.sha256(k).digest()\<close>;
  \<^item> \<open>uni_isdigit c\<close> is \<open>str.isdigit\<close> on a code point \<open>c \<ge> 0x80\<close> (Unicode property
    Numeric\_Type = Digit or Decimal), \<open>uni_decimal c\<close> its decimal digit value when it has
    one (Numeric\_Type = Decimal);
  \<^item> \<open>int_max_str_digits\<close> is \<open>sys.get_int_max_str_digits()\<close>: \<open>int(str)\<close> raises
    ValueError on more digits than that, \<open>0\<close> switches the limit off.
  On ASCII the digit tables are fixed: exactly \<open>0\<close> .. \<open>9\<close>.
\<close>

record py_runtime =
  sha256_digest :: "bytes \<Rightarrow> bytes"
  uni_isdigit :: "nat \<Rightarrow> bool"
  uni_decimal :: "nat \<Rightarrow> nat option"
  int_max_str_digits :: nat

text \<open>\<open>default_partitioner\<close>, lines 5-21.\<close>

definition default_partitioner ::
  "py_runtime \<Rightarrow> bytes option \<Rightarrow> int list \<Rightarrow> int list \<Rightarrow> py_error + int" where
  "default_partitioner rt key all_partitions available_partitions =
     (if available_partitions = [] then Inr 0
      else case key of
        None \<Rightarrow> py_index available_partitions 0
      | Some k \<Rightarrow>
          (let key_hash = from_bytes_big (take 8 (sha256_digest rt k));
               idx = key_hash mod length available_partitions
           in py_index available_partitions idx))"

text \<open>
  \<open>key.decode("utf-8")\<close>: strict UTF-8, on the byte values. Overlong forms, surrogates,
  code points above U+10FFFF, stray continuation bytes and truncated sequences are
  rejected (\<open>None\<close> is UnicodeDecodeError).
\<close>

definition is_cont :: "nat \<Rightarrow> bool" where
  "is_cont b = (0x80 \<le> b \<and> b \<le> 0xBF)"

fun utf8_decode :: "nat list \<Rightarrow> nat list option" where
  "utf8_decode [] = Some []"
| "utf8_decode (b # bs) =
     (if b < 0x80 then map_option ((#) b) (utf8_decode bs)
      else if 0xC2 \<le> b \<and> b \<le> 0xDF then
        (case bs of
           c1 # r \<Rightarrow>
             if is_cont c1
             then map_option ((#) ((b - 0xC0) * 64 + (c1 - 0x80))) (utf8_decode r)
             else None
         | _ \<Rightarrow> None)
      else if 0xE0 \<le> b \<and> b \<le> 0xEF then
        (case bs of
           c1 # c2 # r \<Rightarrow>
             if (if b = 0xE0 then 0xA0 else 0x80) \<le> c1
                \<and> c1 \<le> (if b = 0xED then 0x9F else 0xBF) \<and> is_cont c2
             then map_option
                    ((#) ((b - 0xE0) * 4096 + (c1 - 0x80) * 64 + (c2 - 0x80)))
                    (utf8_decode r)
             else None
         | _ \<Rightarrow> None)
      else if 0xF0 \<le> b \<and> b \<le> 0xF4 then
        (case bs of
           c1 # c2 # c3 # r \<Rightarrow>
             if (if b = 0xF0 then 0x90 else 0x80) \<le> c1
                \<and> c1 \<le> (if b = 0xF4 then 0x8F else 0xBF) \<and> is_cont c2 \<and> is_cont c3
             then map_option
                    ((#) ((b - 0xF0) * 262144 + (c1 - 0x80) * 4096
                          + (c2 - 0x80) * 64 + (c3 - 0x80)))
                    (utf8_decode r)
             else None
         | _ \<Rightarrow> None)
      else None)"

definition decode_utf8 :: "bytes \<Rightarrow> py_error + nat list" where
  "decode_utf8 k =
     (case utf8_decode (map of_char k) of
        None \<Rightarrow> Inl UnicodeDecodeError
      | Some text \<Rightarrow> Inr text)"

text \<open>\<open>ch.isdigit()\<close> on one code point.\<close>

definition str_isdigit :: "py_runtime \<Rightarrow> nat \<Rightarrow> bool" where
  "str_isdigit rt c = (if c < 0x80 then 0x30 \<le> c \<and> c \<le> 0x39 else uni_isdigit rt c)"

definition decimal_value :: "py_runtime \<Rightarrow> nat \<Rightarrow> nat option" where
  "decimal_value rt c =
     (if c < 0x80 then (if 0x30 \<le> c \<and> c \<le> 0x39 then Some (c - 0x30) else None)
      else uni_decimal rt c)"

text \<open>
  \<open>int(s)\<close> on a string of \<open>isdigit\<close> characters (no sign, blank or underscore can
  occur in it): ValueError when the string is empty, longer than the digit limit, or holds
  a character without a decimal value (such as U+00B2); leading zeros are accepted.
\<close>

definition py_int :: "py_runtime \<Rightarrow> nat list \<Rightarrow> py_error + int" where
  "py_int rt s =
     (if s = [] then Inl ValueError
      else if 0 < int_max_str_digits rt \<and> int_max_str_digits rt < length s
      then Inl ValueError
      else case those (map (decimal_value rt) s) of
             None \<Rightarrow> Inl ValueError
           | Some ds \<Rightarrow> Inr (int (foldl (\<lambda>acc d. acc * 10 + d) 0 ds)))"

text \<open>
  The body of the \<open>try\<close> block of \<open>partition_by_customer_id\<close> (lines 34-41):
  \<open>Inr (Some p)\<close> is \<open>return p\<close>, \<open>Inr None\<close> is falling out of the block (no digits),
  \<open>Inl e\<close> is an exception raised inside it.
\<close>

definition try_customer_id :: "py_runtime \<Rightarrow> bytes \<Rightarrow> int list \<Rightarrow> py_error + int option" where
  "try_customer_id rt k available_partitions =
     (case decode_utf8 k of
        Inl e \<Rightarrow> Inl e
      | Inr text \<Rightarrow>
          (let digits = filter (str_isdigit rt) text in
           if digits \<noteq> [] then
             (case py_int rt digits of
                Inl e \<Rightarrow> Inl e
              | Inr cid \<Rightarrow>
                  if available_partitions = [] then Inr (Some 0)
                  else (case py_index available_partitions
                               (nat (cid mod int (length available_partitions))) of
                          Inl e \<Rightarrow> Inl e
                        | Inr p \<Rightarrow> Inr (Some p)))
           else Inr None))"

text \<open>
  \<open>partition_by_customer_id\<close>, lines 24-45: \<open>except Exception: pass\<close> swallows every
  error of the block, and the function ends in the default partitioner.
\<close>

definition partition_by_customer_id ::
  "py_runtime \<Rightarrow> bytes option \<Rightarrow> int list \<Rightarrow> int list \<Rightarrow> py_error + int" where
  "partition_by_customer_id rt key all_partitions available_partitions =
     (case key of
        None \<Rightarrow> default_partitioner rt key all_partitions available_partitions
      | Some k \<Rightarrow>
          (case try_customer_id rt k available_partitions of
             Inr (Some p) \<Rightarrow> Inr p
           | Inr None \<Rightarrow> default_partitioner rt key all_partitions available_partitions
           | Inl e \<Rightarrow> default_partitioner rt key all_partitions available_partitions))"

text \<open>
  Concrete inputs for the closed theorems below. \<open>key_superscript\<close> is
  \<open>b"customer:12\xc2\xb2"\<close>, the UTF-8 encoding of "customer:12" followed by U+00B2
  (superscript two). \<open>example_runtime\<close> is CPython 3.11 cut down to what these inputs
  touch: the digit tables for the code points below U+0100 (U+00B2, U+00B3 and U+00B9 are
  digits without a decimal value), the default digit limit 4300, and the SHA-256 digest
  of \<open>key_superscript\<close>.
\<close>

definition key_superscript :: bytes where
  "key_superscript = ''customer:12'' @ [char_of (0xC2::nat), char_of (0xB2::nat)]"

definition sha256_table :: "(bytes \<times> nat list) list" where
  "sha256_table =
     [(key_superscript,
       [160, 225, 207, 164, 106, 234, 90, 227, 44, 87, 78, 230, 63, 179, 106, 156,
        127, 193, 145, 228, 239, 239, 87, 217, 65, 170, 223, 67, 10, 11, 65, 254])]"

definition example_runtime :: py_runtime where
  "example_runtime =
     \<lparr> sha256_digest = (\<lambda>k. case map_of sha256_table k of
                                None \<Rightarrow> [] | Some d \<Rightarrow> map char_of d),
       uni_isdigit = (\<lambda>c. c \<in> {0xB2, 0xB3, 0xB9}),
       uni_decimal = (\<lambda>c. None),
       int_max_str_digits = 4300 \<rparr>"

section \<open>Order-status merge (src/setup\_database.py, src/setup\_automation.py)\<close>

text \<open>
  \<open>run_merge\<close> and the task created by \<open>setup_task\<close> execute the same \<open>MERGE\<close> statement.
  A row of \<open>RETAIL.RAW.EVENTS\<close> is an \<open>event\<close> (the fields the producer writes); the table
  is a list of rows. Columns are nullable: \<open>None\<close> is SQL \<open>NULL\<close>. Timestamps are
  integers. \<open>LAST_UPDATE_TS\<close> is declared \<open>DATE\<close>; the declaration of \<open>RAW.EVENTS\<close> is
  not in the repository, and \<open>STATUS_TS\<close> is taken to range over the same values, so the
  assignment \<open>T.LAST_UPDATE_TS = S.LAST_EVENT_TS\<close> stores the value as it is.
\<close>

record event =
  event_id :: string
  order_id :: int
  customer_id :: "int option"
  new_status :: "string option"
  status_ts :: "int option"
  source :: string

text \<open>
  A row of \<open>RETAIL.DWH.ORDER_STATUS\<close> without its key. \<open>ORDER_ID\<close> is the primary key and
  the statement inserts at most one row per order id, so the table is a map from
  \<open>ORDER_ID\<close> to the other columns.
\<close>

record order_status =
  CUSTOMER_ID :: "int option"
  PREVIOUS_STATUS :: "string option"
  CURRENT_STATUS :: "string option"
  LAST_UPDATE_TS :: "int option"

type_synonym store = "int \<rightharpoonup> order_status"

subsection \<open>SQL conditions: three-valued logic\<close>

text \<open>A condition is \<open>Some True\<close>, \<open>Some False\<close> or \<open>None\<close> (unknown).\<close>

definition sql_gt :: "int option \<Rightarrow> int option \<Rightarrow> bool option" where
  "sql_gt a b = (case (a, b) of (Some x, Some y) \<Rightarrow> Some (y < x) | _ \<Rightarrow> None)"

definition sql_neq :: "string option \<Rightarrow> string option \<Rightarrow> bool option" where
  "sql_neq a b = (case (a, b) of (Some x, Some y) \<Rightarrow> Some (x \<noteq> y) | _ \<Rightarrow> None)"

definition sql_is_null :: "'a option \<Rightarrow> bool option" where
  "sql_is_null a = Some (a = None)"

definition sql_or :: "bool option \<Rightarrow> bool option \<Rightarrow> bool option" where
  "sql_or p q =
     (if p = Some True \<or> q = Some True then Some True
      else if p = Some False \<and> q = Some False then Some False
      else None)"

definition sql_and :: "bool option \<Rightarrow> bool option \<Rightarrow> bool option" where
  "sql_and p q =
     (if p = Some False \<or> q = Some False then Some False
      else if p = Some True \<and> q = Some True then Some True
      else None)"

subsection \<open>The source subquery: \<open>ROW_NUMBER() ... WHERE RN = 1\<close>\<close>

text \<open>
  \<open>ORDER BY STATUS_TS DESC\<close>: \<open>ts_desc_before a b\<close> holds when a row with timestamp \<open>a\<close>
  sorts strictly before a row with timestamp \<open>b\<close>. \<open>NULL\<close> sorts first in descending
  order (the warehouse's default null ordering).
\<close>

definition ts_desc_before :: "int option \<Rightarrow> int option \<Rightarrow> bool" where
  "ts_desc_before a b =
     (case b of
        None \<Rightarrow> False
      | Some y \<Rightarrow> (case a of None \<Rightarrow> True | Some x \<Rightarrow> y < x))"

text \<open>
  The statement orders the rows of one \<open>ORDER_ID\<close> by \<open>STATUS_TS\<close> only, so the numbering
  of rows with equal timestamps is left to the engine. \<open>may_be_rn1 W e\<close>: the row \<open>e\<close> of
  the table \<open>W\<close> can get \<open>RN = 1\<close>, that is, no row of its order sorts strictly before it.
\<close>

definition may_be_rn1 :: "event list \<Rightarrow> event \<Rightarrow> bool" where
  "may_be_rn1 W e =
     (e \<in> set W
      \<and> list_all (\<lambda>e'. order_id e' = order_id e
                        \<longrightarrow> \<not> ts_desc_before (status_ts e') (status_ts e)) W)"

text \<open>
  \<open>latest_events W S\<close>: \<open>S\<close> is a possible result of the subquery on the table \<open>W\<close>: one
  row with \<open>RN = 1\<close> for each \<open>ORDER_ID\<close> of the table.
\<close>

definition latest_events :: "event list \<Rightarrow> event list \<Rightarrow> bool" where
  "latest_events W S =
     (distinct (map order_id S)
      \<and> set (map order_id S) = set (map order_id W)
      \<and> list_all (may_be_rn1 W) S)"

subsection \<open>The \<open>MERGE\<close> statement\<close>

text \<open>
  \<open>WHEN MATCHED AND (S.LAST_EVENT_TS > T.LAST_UPDATE_TS OR T.LAST_UPDATE_TS IS NULL)
     AND (T.CURRENT_STATUS <> S.NEW_STATUS OR T.CURRENT_STATUS IS NULL)\<close>:
  the clause applies when the condition is true (not when it is false or unknown).
\<close>

definition when_matched :: "event \<Rightarrow> order_status \<Rightarrow> bool" where
  "when_matched s t =
     (sql_and
        (sql_or (sql_gt (status_ts s) (LAST_UPDATE_TS t)) (sql_is_null (LAST_UPDATE_TS t)))
        (sql_or (sql_neq (CURRENT_STATUS t) (new_status s)) (sql_is_null (CURRENT_STATUS t)))
      = Some True)"

definition update_set :: "event \<Rightarrow> order_status \<Rightarrow> order_status" where
  "update_set s t =
     \<lparr> CUSTOMER_ID = customer_id s,
       PREVIOUS_STATUS = CURRENT_STATUS t,
       CURRENT_STATUS = new_status s,
       LAST_UPDATE_TS = status_ts s \<rparr>"

definition insert_values :: "event \<Rightarrow> order_status" where
  "insert_values s =
     \<lparr> CUSTOMER_ID = customer_id s,
       PREVIOUS_STATUS = None,
       CURRENT_STATUS = new_status s,
       LAST_UPDATE_TS = status_ts s \<rparr>"

text \<open>What the statement does for one source row and the target row of its order id.\<close>

fun merge_row :: "event \<Rightarrow> order_status option \<Rightarrow> order_status" where
  "merge_row s None = insert_values s"
| "merge_row s (Some t) = (if when_matched s t then update_set s t else t)"

text \<open>
  \<open>MERGE INTO T USING S ON T.ORDER_ID = S.ORDER_ID\<close>: every order id is joined with the
  source row of that id, if there is one. Target rows without a source row stay.
\<close>

definition merge_into :: "event list \<Rightarrow> store \<Rightarrow> store" where
  "merge_into S T =
     (\<lambda>oid. case find (\<lambda>s. order_id s = oid) S of
              None \<Rightarrow> T oid
            | Some s \<Rightarrow> Some (merge_row s (T oid)))"

text \<open>
  One execution of the statement on the events table \<open>W\<close> and the target table \<open>T\<close>; the
  relation has one result for each way the engine may number tied rows.
\<close>

inductive run_merge :: "event list \<Rightarrow> store \<Rightarrow> store \<Rightarrow> bool" where
  run_mergeI: "latest_events W S \<Longrightarrow> run_merge W T (merge_into S T)"


text \<open>Events and rows for the closed theorems below.\<close>

definition ev :: "string \<Rightarrow> int \<Rightarrow> string \<Rightarrow> int \<Rightarrow> event" where
  "ev eid oid st ts =
     \<lparr> event_id = eid, order_id = oid, customer_id = Some 5, new_status = Some st,
       status_ts = Some ts, source = ''kafka_producer'' \<rparr>"

definition row :: "string option \<Rightarrow> string \<Rightarrow> int \<Rightarrow> order_status" where
  "row prev cur ts =
     \<lparr> CUSTOMER_ID = Some 5, PREVIOUS_STATUS = prev, CURRENT_STATUS = Some cur,
       LAST_UPDATE_TS = Some ts \<rparr>"

section \<open>Properties of the partition routers\<close>

lemma default_partitioner_member:
  assumes "avail \<noteq> []"
  shows "\<exists>p\<in>set avail. default_partitioner rt key P avail = Inr p"
proof (cases key)
  case None
  with assms show ?thesis
    by (auto simp: default_partitioner_def py_index_def intro: bexI [of _ "avail ! 0"])
next
  case (Some k)
  let ?i = "from_bytes_big (take 8 (sha256_digest rt k)) mod length avail"
  from assms have "?i < length avail" by simp
  with assms Some show ?thesis
    by (auto simp: default_partitioner_def py_index_def Let_def intro: bexI [of _ "avail ! ?i"])
qed

lemma try_customer_id_member:
  assumes "avail \<noteq> []" and "try_customer_id rt k avail = Inr (Some p)"
  shows "p \<in> set avail"
proof -
  have "nat (cid mod int (length avail)) < length avail" for cid
    using assms(1) by (simp add: nat_less_iff)
  with assms show ?thesis
    by (auto simp: try_customer_id_def py_index_def Let_def
             split: sum.splits if_splits)
qed

lemma try_customer_id_empty:
  "try_customer_id rt k [] = Inr (Some p) \<Longrightarrow> p = 0"
  by (auto simp: try_customer_id_def Let_def split: sum.splits if_splits)

lemma partition_by_customer_id_direct:
  assumes "avail \<noteq> []" "decode_utf8 k = Inr str"
    "filter (str_isdigit rt) str \<noteq> []"
    "py_int rt (filter (str_isdigit rt) str) = Inr cid"
  shows "partition_by_customer_id rt (Some k) P avail
         = Inr (avail ! nat (cid mod int (length avail)))"
proof -
  have "nat (cid mod int (length avail)) < length avail"
    using assms(1) by (simp add: nat_less_iff)
  with assms show ?thesis
    by (simp add: partition_by_customer_id_def try_customer_id_def py_index_def Let_def)
qed

lemma partition_by_customer_id_fallback:
  assumes "(\<exists>e. decode_utf8 k = Inl e)
         \<or> (decode_utf8 k = Inr str
             \<and> (filter (str_isdigit rt) str = []
                 \<or> (\<exists>e. py_int rt (filter (str_isdigit rt) str) = Inl e)))"
  shows "partition_by_customer_id rt (Some k) P avail = default_partitioner rt (Some k) P avail"
  using assms
  by (auto simp: partition_by_customer_id_def try_customer_id_def Let_def)

lemma decode_customer_123:
  "decode_utf8 ''customer:123'' = Inr [99, 117, 115, 116, 111, 109, 101, 114, 58, 49, 50, 51]"
  by (simp add: decode_utf8_def is_cont_def)

lemma decode_key_superscript:
  "decode_utf8 key_superscript
   = Inr [99, 117, 115, 116, 111, 109, 101, 114, 58, 49, 50, 0xB2]"
  by (simp add: decode_utf8_def is_cont_def key_superscript_def)

lemma customer_123:
  assumes "avail \<noteq> []" "int_max_str_digits rt = 0 \<or> 3 \<le> int_max_str_digits rt"
  shows "partition_by_customer_id rt (Some ''customer:123'') P avail
         = Inr (avail ! (123 mod length avail))"
proof -
  have f: "filter (str_isdigit rt) [99, 117, 115, 116, 111, 109, 101, 114, 58, 49, 50, 51]
           = [49, 50, 51]"
    by (simp add: str_isdigit_def)
  have i: "py_int rt [49, 50, 51] = Inr 123"
    using assms(2) by (auto simp: py_int_def decimal_value_def)
  have "nat (123 mod int (length avail)) = 123 mod length avail"
    by (simp add: nat_mod_distrib)
  with partition_by_customer_id_direct [OF assms(1) decode_customer_123, of rt 123 P] f i
  show ?thesis by simp
qed

text \<open>
  C7, as amended. For a non-empty list of available partitions:
  when the key decodes as UTF-8, has at least one \<open>isdigit\<close> character and \<open>int()\<close> accepts
  the string of its \<open>isdigit\<close> characters with value \<open>cid\<close>, \<open>partition_by_customer_id\<close>
  returns \<open>available_partitions[cid mod len(available_partitions)]\<close>, and for
  \<open>b"customer:123"\<close> that is \<open>available_partitions[123 mod len(available_partitions)]\<close>;
  when the decoding fails, the key has no digit, or \<open>int()\<close> rejects the digit string, and
  when the key is absent, it returns what \<open>default_partitioner\<close> returns on the same
  arguments.
\<close>

theorem customer_id_routing:
  assumes "avail \<noteq> []"
  shows "(decode_utf8 k = Inr str \<and> filter (str_isdigit rt) str \<noteq> []
          \<and> py_int rt (filter (str_isdigit rt) str) = Inr cid
          \<longrightarrow> partition_by_customer_id rt (Some k) P avail
              = Inr (avail ! nat (cid mod int (length avail))))
       \<and> (int_max_str_digits rt = 0 \<or> 3 \<le> int_max_str_digits rt
          \<longrightarrow> partition_by_customer_id rt (Some ''customer:123'') P avail
              = Inr (avail ! (123 mod length avail)))
       \<and> ((\<exists>e. decode_utf8 k = Inl e)
           \<or> (decode_utf8 k = Inr str
               \<and> (filter (str_isdigit rt) str = []
                   \<or> (\<exists>e. py_int rt (filter (str_isdigit rt) str) = Inl e)))
          \<longrightarrow> partition_by_customer_id rt (Some k) P avail
              = default_partitioner rt (Some k) P avail)
       \<and> partition_by_customer_id rt None P avail = default_partitioner rt None P avail"
  using partition_by_customer_id_direct [OF assms, of k str rt cid P]
        customer_123 [OF assms, of rt P]
        partition_by_customer_id_fallback [of k str rt P avail]
  by (simp add: partition_by_customer_id_def)

theorem customer_id_routing_witness:
  "[10, 20, 30, 40, 50] \<noteq> ([] :: int list)
   \<and> decode_utf8 ''customer:123'' = Inr [99, 117, 115, 116, 111, 109, 101, 114, 58, 49, 50, 51]
   \<and> py_int example_runtime
        (filter (str_isdigit example_runtime)
           [99, 117, 115, 116, 111, 109, 101, 114, 58, 49, 50, 51]) = Inr 123
   \<and> partition_by_customer_id example_runtime (Some ''customer:123'') [0, 1, 2, 3, 4]
        [10, 20, 30, 40, 50] = Inr 40
   \<and> decode_utf8 key_superscript
       = Inr [99, 117, 115, 116, 111, 109, 101, 114, 58, 49, 50, 0xB2]
   \<and> py_int example_runtime
        (filter (str_isdigit example_runtime)
           [99, 117, 115, 116, 111, 109, 101, 114, 58, 49, 50, 0xB2]) = Inl ValueError
   \<and> partition_by_customer_id example_runtime (Some key_superscript) [0, 1, 2, 3, 4]
        [10, 20, 30, 40, 50]
       = default_partitioner example_runtime (Some key_superscript) [0, 1, 2, 3, 4]
           [10, 20, 30, 40, 50]"
proof -
  let ?s1 = "[99, 117, 115, 116, 111, 109, 101, 114, 58, 49, 50, 51] :: nat list"
  let ?s2 = "[99, 117, 115, 116, 111, 109, 101, 114, 58, 49, 50, 0xB2] :: nat list"
  let ?avail = "[10, 20, 30, 40, 50] :: int list"
  have a: "?avail \<noteq> []" by simp
  have f1: "filter (str_isdigit example_runtime) ?s1 \<noteq> []"
    by (simp add: str_isdigit_def)
  have i1: "py_int example_runtime (filter (str_isdigit example_runtime) ?s1) = Inr 123"
    by (simp add: py_int_def str_isdigit_def decimal_value_def example_runtime_def)
  have i2: "py_int example_runtime (filter (str_isdigit example_runtime) ?s2) = Inl ValueError"
    by (simp add: py_int_def str_isdigit_def decimal_value_def example_runtime_def)
  have n: "?avail ! nat (123 mod int (length ?avail)) = 40" by simp
  from customer_id_routing [OF a, of "''customer:123''" ?s1 example_runtime 123
         "[0, 1, 2, 3, 4]"] decode_customer_123 f1 i1
  have "partition_by_customer_id example_runtime (Some ''customer:123'') [0, 1, 2, 3, 4] ?avail
        = Inr (?avail ! nat (123 mod int (length ?avail)))"
    by blast
  then have r1: "partition_by_customer_id example_runtime (Some ''customer:123'')
                   [0, 1, 2, 3, 4] ?avail = Inr 40"
    by (simp only: n)
  from customer_id_routing [OF a, of key_superscript ?s2 example_runtime 0
         "[0, 1, 2, 3, 4]"] decode_key_superscript i2
  have r2: "partition_by_customer_id example_runtime (Some key_superscript) [0, 1, 2, 3, 4]
              ?avail
            = default_partitioner example_runtime (Some key_superscript) [0, 1, 2, 3, 4] ?avail"
    by blast
  from a decode_customer_123 i1 r1 decode_key_superscript i2 r2 show ?thesis by blast
qed

text \<open>
  C7 as stated fails: the key \<open>b"customer:12\xc2\xb2"\<close> decodes as UTF-8 and contains the
  decimal digits 1 and 2, yet with two available partitions \<open>[0, 1]\<close> the function returns
  partition 1, the one \<open>default_partitioner\<close> derives from the SHA-256 digest, and not
  \<open>available_partitions[12 mod 2]\<close>, which is partition 0: U+00B2 passes \<open>isdigit\<close>,
  \<open>int("12\<^sup>2")\<close> raises ValueError, and the \<open>except\<close> clause falls back to hashing.
\<close>

theorem customer_id_routing_counterexample:
  "decode_utf8 key_superscript
     = Inr [99, 117, 115, 116, 111, 109, 101, 114, 58, 49, 50, 0xB2]
   \<and> partition_by_customer_id example_runtime (Some key_superscript) [0, 1] [0, 1] = Inr 1
   \<and> partition_by_customer_id example_runtime (Some key_superscript) [0, 1] [0, 1]
       = default_partitioner example_runtime (Some key_superscript) [0, 1] [0, 1]
   \<and> partition_by_customer_id example_runtime (Some key_superscript) [0, 1] [0, 1]
       \<noteq> Inr ([0, 1] ! (12 mod length [0, 1 :: int]))"
  by (simp add: partition_by_customer_id_def try_customer_id_def decode_utf8_def is_cont_def
        str_isdigit_def py_int_def decimal_value_def py_index_def example_runtime_def
        default_partitioner_def from_bytes_big_def key_superscript_def sha256_table_def
        numeral_2_eq_2 [symmetric])

text \<open>
  C8. With an empty list of available partitions both routers return partition 0, for
  every key, present or absent, and every list of all partitions; neither raises.
\<close>

theorem empty_partition_fallback:
  "default_partitioner rt key P [] = Inr 0 \<and> partition_by_customer_id rt key P [] = Inr 0"
proof
  show d: "default_partitioner rt key P [] = Inr 0" by (simp add: default_partitioner_def)
  show "partition_by_customer_id rt key P [] = Inr 0"
  proof (cases key)
    case None
    with d show ?thesis by (simp add: partition_by_customer_id_def)
  next
    case (Some k)
    show ?thesis
    proof (cases "try_customer_id rt k []")
      case (Inl e)
      with Some d show ?thesis by (simp add: partition_by_customer_id_def)
    next
      case (Inr r)
      with Some d show ?thesis
        by (cases r) (auto simp: partition_by_customer_id_def dest: try_customer_id_empty)
    qed
  qed
qed



text \<open>
  C10. With a non-empty list of available partitions both routers return an element of
  that list, for every key, present or absent: no index is out of range, no call raises.
\<close>

theorem routing_result_membership:
  assumes "avail \<noteq> []"
  shows "(\<exists>p\<in>set avail. default_partitioner rt key P avail = Inr p)
       \<and> (\<exists>p\<in>set avail. partition_by_customer_id rt key P avail = Inr p)"
proof
  show d: "\<exists>p\<in>set avail. default_partitioner rt key P avail = Inr p"
    by (rule default_partitioner_member [OF assms])
  show "\<exists>p\<in>set avail. partition_by_customer_id rt key P avail = Inr p"
  proof (cases key)
    case None
    with d show ?thesis by (simp add: partition_by_customer_id_def)
  next
    case (Some k)
    show ?thesis
    proof (cases "try_customer_id rt k avail")
      case (Inl e)
      with Some d show ?thesis by (simp add: partition_by_customer_id_def)
    next
      case (Inr r)
      show ?thesis
      proof (cases r)
        case None
        with Inr Some d show ?thesis by (simp add: partition_by_customer_id_def)
      next
        case (Some p)
        with Inr have "p \<in> set avail" using try_customer_id_member [OF assms] by simp
        with Inr Some \<open>key = Some k\<close> show ?thesis by (simp add: partition_by_customer_id_def)
      qed
    qed
  qed
qed

theorem routing_result_membership_witness:
  "[10, 20, 30] \<noteq> ([] :: int list)
   \<and> (\<exists>p\<in>set [10, 20, 30].
         default_partitioner example_runtime (Some key_superscript) [0, 1, 2] [10, 20, 30]
         = Inr p)
   \<and> (\<exists>p\<in>set [10, 20, 30].
         partition_by_customer_id example_runtime (Some key_superscript) [0, 1, 2] [10, 20, 30]
         = Inr p)"
proof -
  have a: "[10, 20, 30] \<noteq> ([] :: int list)" by simp
  from a routing_result_membership [OF a, of example_runtime "Some key_superscript" "[0, 1, 2]"]
  show ?thesis by blast
qed

section \<open>Properties of the order-status merge\<close>

subsection \<open>The merge condition and one row\<close>

lemma when_matched_iff:
  "when_matched s t \<longleftrightarrow>
     (LAST_UPDATE_TS t = None \<or> (\<exists>u v. LAST_UPDATE_TS t = Some u \<and> status_ts s = Some v \<and> u < v))
   \<and> (CURRENT_STATUS t = None
       \<or> (\<exists>c n. CURRENT_STATUS t = Some c \<and> new_status s = Some n \<and> c \<noteq> n))"
  by (cases "LAST_UPDATE_TS t"; cases "status_ts s"; cases "CURRENT_STATUS t"; cases "new_status s")
     (auto simp: when_matched_def sql_and_def sql_or_def sql_gt_def sql_neq_def sql_is_null_def)

lemma merge_row_idem: "merge_row s (Some (merge_row s r)) = merge_row s r"
proof (cases r)
  case None
  then show ?thesis
    by (auto simp: when_matched_iff insert_values_def update_set_def)
next
  case (Some t)
  then show ?thesis
    by (auto simp: when_matched_iff update_set_def)
qed

lemma merge_into_same: "merge_into S (merge_into S T) = merge_into S T"
proof (rule ext)
  fix oid
  show "merge_into S (merge_into S T) oid = merge_into S T oid"
    by (cases "find (\<lambda>s. order_id s = oid) S")
       (simp_all add: merge_into_def merge_row_idem del: merge_row.simps)
qed

subsection \<open>The selected events\<close>

lemma find_order_id_Some:
  "find (\<lambda>s. order_id s = oid) S = Some s \<Longrightarrow> s \<in> set S \<and> order_id s = oid"
  by (induction S) (auto split: if_splits)

lemma find_order_id_None:
  "find (\<lambda>s. order_id s = oid) S = None \<longleftrightarrow> oid \<notin> order_id ` set S"
  by (induction S) auto

lemma find_distinct:
  "distinct (map order_id S) \<Longrightarrow> s \<in> set S \<Longrightarrow> find (\<lambda>x. order_id x = order_id s) S = Some s"
  by (induction S) (auto simp: image_iff)

lemma latest_events_winner:
  assumes S: "latest_events W S" and oid: "oid \<in> order_id ` set W"
  obtains s where "find (\<lambda>x. order_id x = oid) S = Some s" "s \<in> set S" "order_id s = oid"
    "may_be_rn1 W s"
proof -
  from S oid have "oid \<in> order_id ` set S" by (simp add: latest_events_def)
  then obtain s where s: "s \<in> set S" "order_id s = oid" by auto
  from S s have "find (\<lambda>x. order_id x = oid) S = Some s"
    using find_distinct [of S s] by (simp add: latest_events_def)
  moreover from S s have "may_be_rn1 W s" by (simp add: latest_events_def list_all_iff)
  ultimately show ?thesis using s that by blast
qed

lemma latest_events_same_winner:
  assumes S1: "latest_events W S1" and S2: "latest_events W S2"
    and uniq: "\<forall>e1\<in>set W. \<forall>e2\<in>set W.
                 order_id e1 = order_id e2 \<and> may_be_rn1 W e1 \<and> may_be_rn1 W e2 \<longrightarrow> e1 = e2"
  shows "find (\<lambda>s. order_id s = oid) S1 = find (\<lambda>s. order_id s = oid) S2"
proof (cases "oid \<in> set (map order_id W)")
  case False
  with S1 S2 have "oid \<notin> set (map order_id S1)" "oid \<notin> set (map order_id S2)"
    by (simp_all add: latest_events_def)
  then have "find (\<lambda>s. order_id s = oid) S1 = None" "find (\<lambda>s. order_id s = oid) S2 = None"
    by (simp_all add: find_order_id_None)
  then show ?thesis by simp
next
  case True
  with S1 obtain s1 where s1: "s1 \<in> set S1" "order_id s1 = oid"
    unfolding latest_events_def by (metis (no_types, lifting) image_iff list.set_map)
  from True S2 obtain s2 where s2: "s2 \<in> set S2" "order_id s2 = oid"
    unfolding latest_events_def by (metis (no_types, lifting) image_iff list.set_map)
  from S1 s1 have r1: "may_be_rn1 W s1" by (simp add: latest_events_def list_all_iff)
  from S2 s2 have r2: "may_be_rn1 W s2" by (simp add: latest_events_def list_all_iff)
  from r1 r2 have "s1 \<in> set W" "s2 \<in> set W" by (simp_all add: may_be_rn1_def)
  with uniq r1 r2 s1 s2 have "s1 = s2" by blast
  moreover from S1 s1 have "find (\<lambda>s. order_id s = oid) S1 = Some s1"
    using find_distinct [of S1 s1] by (simp add: latest_events_def)
  moreover from S2 s2 have "find (\<lambda>s. order_id s = oid) S2 = Some s2"
    using find_distinct [of S2 s2] by (simp add: latest_events_def)
  ultimately show ?thesis by simp
qed

lemma strictly_latest_is_winner:
  assumes S: "latest_events W S" and e: "e \<in> set W"
    and strict: "\<forall>e'\<in>set W. order_id e' = order_id e \<and> e' \<noteq> e
                   \<longrightarrow> ts_desc_before (status_ts e) (status_ts e')"
  shows "find (\<lambda>s. order_id s = order_id e) S = Some e"
proof -
  from e have "order_id e \<in> order_id ` set W" by simp
  with S obtain s where s: "find (\<lambda>x. order_id x = order_id e) S = Some s"
    "order_id s = order_id e" "may_be_rn1 W s"
    by (rule latest_events_winner)
  have "s = e"
  proof (rule ccontr)
    assume "s \<noteq> e"
    moreover from s(3) have "s \<in> set W" by (simp add: may_be_rn1_def)
    ultimately have "ts_desc_before (status_ts e) (status_ts s)" using strict s(2) by blast
    moreover from s(3) e s(2) have "\<not> ts_desc_before (status_ts e) (status_ts s)"
      by (auto simp: may_be_rn1_def list_all_iff)
    ultimately show False by simp
  qed
  with s show ?thesis by simp
qed

lemma latest_events_selected:
  assumes "latest_events W S" "find (\<lambda>s. order_id s = oid) S = Some s"
  shows "s \<in> set W \<and> order_id s = oid
         \<and> (\<forall>e'\<in>set W. order_id e' = oid
               \<longrightarrow> \<not> ts_desc_before (status_ts e') (status_ts s))"
proof -
  from find_order_id_Some [OF assms(2)] have s: "s \<in> set S" "order_id s = oid"
    by simp_all
  with assms(1) have "may_be_rn1 W s" by (simp add: latest_events_def list_all_iff)
  then have "s \<in> set W"
    "\<forall>e'\<in>set W. order_id e' = order_id s
        \<longrightarrow> \<not> ts_desc_before (status_ts e') (status_ts s)"
    by (simp_all add: may_be_rn1_def list_all_iff)
  with s(2) show ?thesis by simp
qed

lemma ts_desc_before_irrefl: "\<not> ts_desc_before a a"
  by (cases a) (simp_all add: ts_desc_before_def)

lemma ts_desc_before_trans:
  "ts_desc_before a b \<Longrightarrow> ts_desc_before b c \<Longrightarrow> ts_desc_before a c"
  by (cases a; cases b; cases c) (simp_all add: ts_desc_before_def)

lemma first_in_order_exists:
  "xs \<noteq> [] \<Longrightarrow>
   \<exists>m\<in>set xs. \<forall>x\<in>set xs. \<not> ts_desc_before (status_ts x) (status_ts m)"
proof (induction xs)
  case Nil
  then show ?case by simp
next
  case (Cons x xs)
  show ?case
  proof (cases "xs = []")
    case True
    then show ?thesis by (simp add: ts_desc_before_irrefl)
  next
    case False
    with Cons.IH obtain m where m: "m \<in> set xs"
      "\<forall>y\<in>set xs. \<not> ts_desc_before (status_ts y) (status_ts m)" by blast
    show ?thesis
    proof (cases "ts_desc_before (status_ts x) (status_ts m)")
      case True
      have "\<not> ts_desc_before (status_ts y) (status_ts x)" if "y \<in> set xs" for y
      proof
        assume "ts_desc_before (status_ts y) (status_ts x)"
        then have "ts_desc_before (status_ts y) (status_ts m)"
          using True by (rule ts_desc_before_trans)
        with m(2) that show False by simp
      qed
      then have "\<forall>y\<in>set (x # xs). \<not> ts_desc_before (status_ts y) (status_ts x)"
        by (simp add: ts_desc_before_irrefl)
      then show ?thesis by (intro bexI [of _ x]) simp_all
    next
      case False
      with m(2) have "\<forall>y\<in>set (x # xs). \<not> ts_desc_before (status_ts y) (status_ts m)"
        by simp
      with m(1) show ?thesis by (intro bexI [of _ m]) simp_all
    qed
  qed
qed

lemma may_be_rn1_exists:
  assumes "oid \<in> order_id ` set W"
  shows "\<exists>m. order_id m = oid \<and> may_be_rn1 W m"
proof -
  let ?G = "filter (\<lambda>x. order_id x = oid) W"
  from assms have "?G \<noteq> []" by (auto simp: filter_empty_conv)
  from first_in_order_exists [OF this] obtain m where m: "m \<in> set ?G"
    "\<forall>x\<in>set ?G. \<not> ts_desc_before (status_ts x) (status_ts m)" by blast
  then have "order_id m = oid \<and> may_be_rn1 W m"
    by (auto simp: may_be_rn1_def list_all_iff)
  then show ?thesis ..
qed

lemma latest_events_exists_with:
  assumes "may_be_rn1 W e"
  shows "\<exists>S. latest_events W S \<and> e \<in> set S"
proof -
  let ?ids = "remdups (map order_id W)"
  have "\<forall>oid\<in>set ?ids. \<exists>m. order_id m = oid \<and> may_be_rn1 W m"
    using may_be_rn1_exists [of _ W] by simp
  then obtain g where g: "\<forall>oid\<in>set ?ids. order_id (g oid) = oid \<and> may_be_rn1 W (g oid)"
    by (rule bchoice [THEN exE])
  define f where "f = g(order_id e := e)"
  have f: "order_id (f oid) = oid \<and> may_be_rn1 W (f oid)"
    if "oid \<in> set ?ids" for oid
  proof (cases "oid = order_id e")
    case True
    with assms show ?thesis by (simp add: f_def)
  next
    case False
    with g that show ?thesis unfolding f_def by (metis fun_upd_other)
  qed
  from assms have e: "order_id e \<in> set ?ids" by (simp add: may_be_rn1_def)
  have "map order_id (map f ?ids) = ?ids"
    unfolding map_map by (rule map_idI) (simp add: f)
  moreover have "list_all (may_be_rn1 W) (map f ?ids)"
    using f by (simp add: list_all_iff)
  ultimately have "latest_events W (map f ?ids)"
    by (simp add: latest_events_def)
  moreover have "f (order_id e) = e" by (simp add: f_def)
  with e have "e \<in> set (map f ?ids)"
    by (metis image_eqI list.set_map)
  ultimately show ?thesis by blast
qed

lemma latest_events_exists: "\<exists>S. latest_events W S"
proof (cases W)
  case Nil
  then have "latest_events W []" by (simp add: latest_events_def)
  then show ?thesis ..
next
  case (Cons x xs)
  then have "order_id x \<in> order_id ` set W" by simp
  from may_be_rn1_exists [OF this] latest_events_exists_with show ?thesis by blast
qed

lemma tied_event_may_win:
  assumes "latest_events W S" "e1 \<in> set S" "e2 \<in> set W" "order_id e2 = order_id e1"
    "status_ts e2 = status_ts e1"
  shows "\<exists>S'. latest_events W S' \<and> e2 \<in> set S'"
proof -
  from assms(1,2) have "may_be_rn1 W e1" by (simp add: latest_events_def list_all_iff)
  then have "list_all (\<lambda>e'. order_id e' = order_id e1
               \<longrightarrow> \<not> ts_desc_before (status_ts e') (status_ts e1)) W"
    by (simp add: may_be_rn1_def)
  with assms(3-5) have "may_be_rn1 W e2" by (simp add: may_be_rn1_def)
  then show ?thesis by (rule latest_events_exists_with)
qed

text \<open>Every execution of the statement has a result.\<close>

lemma run_merge_total: "\<exists>T'. run_merge W T T'"
proof -
  from latest_events_exists [of W] obtain S where S: "latest_events W S" ..
  show ?thesis by (rule exI [of _ "merge_into S T"]) (rule run_mergeI [OF S])
qed


text \<open>Unfolding the definitions on the concrete events and rows.\<close>

lemmas ev_simps = ev_def row_def latest_events_def may_be_rn1_def ts_desc_before_def
  merge_into_def when_matched_def sql_and_def sql_or_def sql_gt_def sql_neq_def
  sql_is_null_def update_set_def insert_values_def

subsection \<open>The claims on the merge\<close>

text \<open>
  C1, as amended. When every order of the events table has a single event that can get
  \<open>RN = 1\<close> (no two different events of an order tie on the greatest \<open>STATUS_TS\<close>), then
  for every starting table, running the statement on the events table and running it
  again on the same events table leaves the table that the first run produced.
\<close>

theorem reducer_idempotent_without_ties:
  assumes uniq: "\<forall>e1\<in>set W. \<forall>e2\<in>set W.
                 order_id e1 = order_id e2 \<and> may_be_rn1 W e1 \<and> may_be_rn1 W e2 \<longrightarrow> e1 = e2"
    and p1: "run_merge W T T1" and p2: "run_merge W T1 T2"
  shows "T2 = T1"
proof -
  from p1 obtain S1 where S1: "latest_events W S1" "T1 = merge_into S1 T"
    by (auto elim: run_merge.cases)
  from p2 obtain S2 where S2: "latest_events W S2" "T2 = merge_into S2 T1"
    by (auto elim: run_merge.cases)
  have "find (\<lambda>s. order_id s = oid) S2 = find (\<lambda>s. order_id s = oid) S1" for oid
    by (rule latest_events_same_winner [OF S2(1) S1(1) uniq])
  then have "merge_into S2 T1 = merge_into S1 T1"
    by (simp add: merge_into_def)
  with S1 S2 show ?thesis by (simp add: merge_into_same)
qed

theorem reducer_idempotent_without_ties_witness:
  "list_all
     (\<lambda>e1. list_all
        (\<lambda>e2. order_id e1 = order_id e2
           \<and> may_be_rn1 [ev ''a'' 1 ''CREATED'' 1, ev ''b'' 1 ''PAID'' 2, ev ''c'' 1 ''SHIPPED'' 3] e1
           \<and> may_be_rn1 [ev ''a'' 1 ''CREATED'' 1, ev ''b'' 1 ''PAID'' 2, ev ''c'' 1 ''SHIPPED'' 3] e2
           \<longrightarrow> e1 = e2)
        [ev ''a'' 1 ''CREATED'' 1, ev ''b'' 1 ''PAID'' 2, ev ''c'' 1 ''SHIPPED'' 3])
     [ev ''a'' 1 ''CREATED'' 1, ev ''b'' 1 ''PAID'' 2, ev ''c'' 1 ''SHIPPED'' 3]
   \<and> run_merge [ev ''a'' 1 ''CREATED'' 1, ev ''b'' 1 ''PAID'' 2, ev ''c'' 1 ''SHIPPED'' 3]
        Map.empty (merge_into [ev ''c'' 1 ''SHIPPED'' 3] Map.empty)
   \<and> run_merge [ev ''a'' 1 ''CREATED'' 1, ev ''b'' 1 ''PAID'' 2, ev ''c'' 1 ''SHIPPED'' 3]
        (merge_into [ev ''c'' 1 ''SHIPPED'' 3] Map.empty)
        (merge_into [ev ''c'' 1 ''SHIPPED'' 3] (merge_into [ev ''c'' 1 ''SHIPPED'' 3] Map.empty))
   \<and> merge_into [ev ''c'' 1 ''SHIPPED'' 3] (merge_into [ev ''c'' 1 ''SHIPPED'' 3] Map.empty)
     = merge_into [ev ''c'' 1 ''SHIPPED'' 3] Map.empty"
proof -
  let ?W = "[ev ''a'' 1 ''CREATED'' 1, ev ''b'' 1 ''PAID'' 2, ev ''c'' 1 ''SHIPPED'' 3]"
  let ?S = "[ev ''c'' 1 ''SHIPPED'' 3]"
  have u': "list_all
              (\<lambda>e1. list_all
                 (\<lambda>e2. order_id e1 = order_id e2 \<and> may_be_rn1 ?W e1 \<and> may_be_rn1 ?W e2
                    \<longrightarrow> e1 = e2) ?W) ?W"
    by (simp add: ev_simps)
  then have u: "\<forall>e1\<in>set ?W. \<forall>e2\<in>set ?W.
             order_id e1 = order_id e2 \<and> may_be_rn1 ?W e1 \<and> may_be_rn1 ?W e2 \<longrightarrow> e1 = e2"
    unfolding list_all_iff .
  have S: "latest_events ?W ?S" by (simp add: ev_simps)
  have 1: "run_merge ?W Map.empty (merge_into ?S Map.empty)" by (rule run_mergeI [OF S])
  have 2: "run_merge ?W (merge_into ?S Map.empty) (merge_into ?S (merge_into ?S Map.empty))"
    by (rule run_mergeI [OF S])
  from u' 1 2 reducer_idempotent_without_ties [OF u 1 2] show ?thesis by blast
qed

text \<open>
  C1 as stated fails on tied events. The events table holds, for order 9, \<open>PAID\<close> and
  \<open>SHIPPED\<close>, both at time 15; the stored row is \<open>PAID\<close> at time 10. A first run that
  numbers the \<open>PAID\<close> event first changes nothing (same status); a second run on the same
  events table that numbers the \<open>SHIPPED\<close> event first updates the row. Two runs then
  give another table than one run.
\<close>

theorem reducer_idempotent_counterexample:
  "run_merge [ev ''a'' 9 ''PAID'' 15, ev ''b'' 9 ''SHIPPED'' 15]
      [9 \<mapsto> row (Some ''CREATED'') ''PAID'' 10] [9 \<mapsto> row (Some ''CREATED'') ''PAID'' 10]
   \<and> run_merge [ev ''a'' 9 ''PAID'' 15, ev ''b'' 9 ''SHIPPED'' 15]
      [9 \<mapsto> row (Some ''CREATED'') ''PAID'' 10] [9 \<mapsto> row (Some ''PAID'') ''SHIPPED'' 15]
   \<and> [9 \<mapsto> row (Some ''PAID'') ''SHIPPED'' 15] \<noteq> [9 \<mapsto> row (Some ''CREATED'') ''PAID'' 10]"
proof -
  let ?W = "[ev ''a'' 9 ''PAID'' 15, ev ''b'' 9 ''SHIPPED'' 15]"
  let ?T = "[9 \<mapsto> row (Some ''CREATED'') ''PAID'' 10]"
  have a: "latest_events ?W [ev ''a'' 9 ''PAID'' 15]" by (simp add: ev_simps)
  have b: "latest_events ?W [ev ''b'' 9 ''SHIPPED'' 15]" by (simp add: ev_simps)
  have ma: "merge_into [ev ''a'' 9 ''PAID'' 15] ?T = ?T"
    by (rule ext) (simp add: ev_simps)
  have mb: "merge_into [ev ''b'' 9 ''SHIPPED'' 15] ?T = [9 \<mapsto> row (Some ''PAID'') ''SHIPPED'' 15]"
    by (rule ext) (simp add: ev_simps)
  from run_mergeI [OF a, of ?T] ma have 1: "run_merge ?W ?T ?T" by simp
  from run_mergeI [OF b, of ?T] mb
  have 2: "run_merge ?W ?T [9 \<mapsto> row (Some ''PAID'') ''SHIPPED'' 15]" by simp
  have "[9 \<mapsto> row (Some ''PAID'') ''SHIPPED'' 15] 9 \<noteq> ?T 9" by (simp add: row_def)
  then have 3: "[9 \<mapsto> row (Some ''PAID'') ''SHIPPED'' 15] \<noteq> ?T" by metis
  from 1 2 3 show ?thesis by blast
qed






text \<open>
  C4. When the selected event of an order has the status that the stored row has as
  \<open>CURRENT_STATUS\<close>, the statement leaves the row as it is, \<open>PREVIOUS_STATUS\<close> included,
  whatever the event's \<open>STATUS_TS\<close>.
\<close>

theorem no_self_transition:
  assumes "find (\<lambda>s. order_id s = oid) S = Some s" "T oid = Some t"
    "CURRENT_STATUS t = Some c" "new_status s = Some c"
  shows "merge_row s (Some t) = t \<and> merge_into S T oid = Some t"
  using assms by (simp add: merge_into_def when_matched_iff)

theorem no_self_transition_witness:
  "find (\<lambda>s. order_id s = 1) [ev ''x'' 1 ''PAID'' 15] = Some (ev ''x'' 1 ''PAID'' 15)
   \<and> [1 \<mapsto> row (Some ''CREATED'') ''PAID'' 10] 1 = Some (row (Some ''CREATED'') ''PAID'' 10)
   \<and> CURRENT_STATUS (row (Some ''CREATED'') ''PAID'' 10) = Some ''PAID''
   \<and> new_status (ev ''x'' 1 ''PAID'' 15) = Some ''PAID''
   \<and> merge_row (ev ''x'' 1 ''PAID'' 15) (Some (row (Some ''CREATED'') ''PAID'' 10))
     = row (Some ''CREATED'') ''PAID'' 10
   \<and> merge_into [ev ''x'' 1 ''PAID'' 15] [1 \<mapsto> row (Some ''CREATED'') ''PAID'' 10] 1
     = Some (row (Some ''CREATED'') ''PAID'' 10)"
proof -
  have 1: "find (\<lambda>s. order_id s = 1) [ev ''x'' 1 ''PAID'' 15] = Some (ev ''x'' 1 ''PAID'' 15)"
    by (simp add: ev_def)
  have 2: "[1 \<mapsto> row (Some ''CREATED'') ''PAID'' 10] 1
           = Some (row (Some ''CREATED'') ''PAID'' 10)" by simp
  have 3: "CURRENT_STATUS (row (Some ''CREATED'') ''PAID'' 10) = Some ''PAID''"
    by (simp add: row_def)
  have 4: "new_status (ev ''x'' 1 ''PAID'' 15) = Some ''PAID''" by (simp add: ev_def)
  from 1 2 3 4
    no_self_transition [of 1 "[ev ''x'' 1 ''PAID'' 15]" "ev ''x'' 1 ''PAID'' 15"
      "[1 \<mapsto> row (Some ''CREATED'') ''PAID'' 10]" "row (Some ''CREATED'') ''PAID'' 10"
      "''PAID''", OF 1 2 3 4]
  show ?thesis by blast
qed



text \<open>
  C6, as amended. The event selected for an order belongs to the events table and no
  event of the order sorts strictly before it. When one event of an order is strictly
  later than all its other events, every run selects that event. When an event of the
  order has the same \<open>STATUS_TS\<close> as a selected one, some run selects it instead: the
  statement has no tie-break, by \<open>event_id\<close> or otherwise.
\<close>

theorem dedup_latest_winner:
  assumes "latest_events W S"
  shows "(find (\<lambda>s. order_id s = oid) S = Some s
            \<longrightarrow> s \<in> set W \<and> order_id s = oid
                \<and> (\<forall>e'\<in>set W. order_id e' = oid
                      \<longrightarrow> \<not> ts_desc_before (status_ts e') (status_ts s)))
       \<and> (e \<in> set W
          \<and> (\<forall>e'\<in>set W. order_id e' = order_id e \<and> e' \<noteq> e
                \<longrightarrow> ts_desc_before (status_ts e) (status_ts e'))
            \<longrightarrow> find (\<lambda>s. order_id s = order_id e) S = Some e)
       \<and> (e1 \<in> set S \<and> e2 \<in> set W \<and> order_id e2 = order_id e1
          \<and> status_ts e2 = status_ts e1
            \<longrightarrow> (\<exists>S'. latest_events W S' \<and> e2 \<in> set S'))"
proof -
  have a: "find (\<lambda>s. order_id s = oid) S = Some s
            \<longrightarrow> s \<in> set W \<and> order_id s = oid
                \<and> (\<forall>e'\<in>set W. order_id e' = oid
                      \<longrightarrow> \<not> ts_desc_before (status_ts e') (status_ts s))"
    using latest_events_selected [OF assms] by (rule impI)
  have b: "e \<in> set W
          \<and> (\<forall>e'\<in>set W. order_id e' = order_id e \<and> e' \<noteq> e
                \<longrightarrow> ts_desc_before (status_ts e) (status_ts e'))
            \<longrightarrow> find (\<lambda>s. order_id s = order_id e) S = Some e"
  proof
    assume h: "e \<in> set W
          \<and> (\<forall>e'\<in>set W. order_id e' = order_id e \<and> e' \<noteq> e
                \<longrightarrow> ts_desc_before (status_ts e) (status_ts e'))"
    from h have h1: "e \<in> set W" ..
    from h have h2: "\<forall>e'\<in>set W. order_id e' = order_id e \<and> e' \<noteq> e
                \<longrightarrow> ts_desc_before (status_ts e) (status_ts e')" ..
    from assms h1 h2 show "find (\<lambda>s. order_id s = order_id e) S = Some e"
      by (rule strictly_latest_is_winner)
  qed
  have c: "e1 \<in> set S \<and> e2 \<in> set W \<and> order_id e2 = order_id e1
          \<and> status_ts e2 = status_ts e1
            \<longrightarrow> (\<exists>S'. latest_events W S' \<and> e2 \<in> set S')"
    using tied_event_may_win [OF assms, of e1 e2] by (simp only: imp_conjL) blast
  from a b c show ?thesis by (intro conjI)
qed

theorem dedup_latest_winner_witness:
  "latest_events [ev ''a'' 9 ''PAID'' 15, ev ''b'' 9 ''SHIPPED'' 15] [ev ''a'' 9 ''PAID'' 15]
   \<and> find (\<lambda>s. order_id s = 9) [ev ''a'' 9 ''PAID'' 15] = Some (ev ''a'' 9 ''PAID'' 15)
   \<and> list_all
        (\<lambda>e'. order_id e' = 9
           \<longrightarrow> \<not> ts_desc_before (status_ts e') (status_ts (ev ''a'' 9 ''PAID'' 15)))
        [ev ''a'' 9 ''PAID'' 15, ev ''b'' 9 ''SHIPPED'' 15]
   \<and> (\<exists>S'. latest_events [ev ''a'' 9 ''PAID'' 15, ev ''b'' 9 ''SHIPPED'' 15] S'
            \<and> ev ''b'' 9 ''SHIPPED'' 15 \<in> set S')
   \<and> latest_events [ev ''a'' 1 ''CREATED'' 1, ev ''b'' 1 ''PAID'' 2, ev ''c'' 1 ''SHIPPED'' 3]
        [ev ''c'' 1 ''SHIPPED'' 3]
   \<and> list_all
        (\<lambda>e'. order_id e' = order_id (ev ''c'' 1 ''SHIPPED'' 3) \<and> e' \<noteq> ev ''c'' 1 ''SHIPPED'' 3
           \<longrightarrow> ts_desc_before (status_ts (ev ''c'' 1 ''SHIPPED'' 3)) (status_ts e'))
        [ev ''a'' 1 ''CREATED'' 1, ev ''b'' 1 ''PAID'' 2, ev ''c'' 1 ''SHIPPED'' 3]
   \<and> find (\<lambda>s. order_id s = order_id (ev ''c'' 1 ''SHIPPED'' 3)) [ev ''c'' 1 ''SHIPPED'' 3]
     = Some (ev ''c'' 1 ''SHIPPED'' 3)"
proof -
  let ?a = "ev ''a'' 9 ''PAID'' 15"
  let ?b = "ev ''b'' 9 ''SHIPPED'' 15"
  let ?W = "[?a, ?b]"
  let ?c = "ev ''c'' 1 ''SHIPPED'' 3"
  let ?W3 = "[ev ''a'' 1 ''CREATED'' 1, ev ''b'' 1 ''PAID'' 2, ?c]"
  have S: "latest_events ?W [?a]" by (simp add: ev_simps)
  have f: "find (\<lambda>s. order_id s = 9) [?a] = Some ?a" by (simp add: ev_def)
  have tie: "?a \<in> set [?a]" "?b \<in> set ?W" "order_id ?b = order_id ?a"
    "status_ts ?b = status_ts ?a"
    by (simp_all add: ev_def)
  from dedup_latest_winner [OF S, of 9 ?a ?a ?a ?b] f tie
  have l1: "\<forall>e'\<in>set ?W. order_id e' = 9
              \<longrightarrow> \<not> ts_desc_before (status_ts e') (status_ts ?a)"
    and 2: "\<exists>S'. latest_events ?W S' \<and> ?b \<in> set S'"
    by blast+
  from l1 have 1: "list_all (\<lambda>e'. order_id e' = 9
              \<longrightarrow> \<not> ts_desc_before (status_ts e') (status_ts ?a)) ?W"
    unfolding list_all_iff .
  have S3: "latest_events ?W3 [?c]" by (simp add: ev_simps)
  have m: "?c \<in> set ?W3" by simp
  have st': "list_all (\<lambda>e'. order_id e' = order_id ?c \<and> e' \<noteq> ?c
              \<longrightarrow> ts_desc_before (status_ts ?c) (status_ts e')) ?W3"
    by (simp add: ev_simps)
  then have st: "\<forall>e'\<in>set ?W3. order_id e' = order_id ?c \<and> e' \<noteq> ?c
              \<longrightarrow> ts_desc_before (status_ts ?c) (status_ts e')"
    unfolding list_all_iff .
  from dedup_latest_winner [OF S3, of 1 ?c ?c ?c ?c] m st
  have 3: "find (\<lambda>s. order_id s = order_id ?c) [?c] = Some ?c" by blast
  from S f 1 2 S3 st' 3 show ?thesis by blast
qed

text \<open>
  C6 as stated fails: for two events of order 9 with the same \<open>STATUS_TS\<close> and different
  \<open>event_id\<close>, both are possible results of the subquery, and the two runs insert
  different rows.
\<close>

theorem dedup_latest_winner_counterexample:
  "latest_events [ev ''a'' 9 ''PAID'' 15, ev ''b'' 9 ''SHIPPED'' 15] [ev ''a'' 9 ''PAID'' 15]
   \<and> latest_events [ev ''a'' 9 ''PAID'' 15, ev ''b'' 9 ''SHIPPED'' 15] [ev ''b'' 9 ''SHIPPED'' 15]
   \<and> order_id (ev ''a'' 9 ''PAID'' 15) = order_id (ev ''b'' 9 ''SHIPPED'' 15)
   \<and> status_ts (ev ''a'' 9 ''PAID'' 15) = status_ts (ev ''b'' 9 ''SHIPPED'' 15)
   \<and> event_id (ev ''a'' 9 ''PAID'' 15) \<noteq> event_id (ev ''b'' 9 ''SHIPPED'' 15)
   \<and> find (\<lambda>s. order_id s = 9) [ev ''a'' 9 ''PAID'' 15]
     \<noteq> find (\<lambda>s. order_id s = 9) [ev ''b'' 9 ''SHIPPED'' 15]
   \<and> merge_into [ev ''a'' 9 ''PAID'' 15] Map.empty 9
     \<noteq> merge_into [ev ''b'' 9 ''SHIPPED'' 15] Map.empty 9"
  by (simp add: ev_simps)

end
